theory Spec2Isabelle
  imports Main "HOL-Library.Finite_Map"
begin

section \<open>JavaScript values shared by both components\<close>

text \<open>
  Errors are values.  \<open>Error msg\<close> is \<^verbatim>\<open>new Error(msg)\<close>; \<open>TypeError\<close> is what the engine
  raises when a property of \<^verbatim>\<open>undefined\<close> is read.
\<close>

datatype error = Error string | TypeError

text \<open>
  The values that can sit in a configuration object: the JSON fragment of JavaScript plus
  \<^verbatim>\<open>undefined\<close>.  An object is a finite map from property names to values (own enumerable
  properties; property order is not observed by any code modelled here).  Numbers are the
  integral ones.
\<close>

datatype jsval =
    JUndefined
  | JNull
  | JBool bool
  | JNum int
  | JStr string
  | JObj "(string, jsval) fmap"

text \<open>ToBoolean.\<close>

fun truthy :: "jsval \<Rightarrow> bool" where
  "truthy JUndefined = False"
| "truthy JNull = False"
| "truthy (JBool b) = b"
| "truthy (JNum n) = (n \<noteq> 0)"
| "truthy (JStr s) = (s \<noteq> [])"
| "truthy (JObj m) = True"

text \<open>\<^verbatim>\<open>a && b\<close>: the left operand when it is falsy, the right one otherwise.\<close>

definition js_and :: "jsval \<Rightarrow> jsval \<Rightarrow> jsval" where
  "js_and a b = (if truthy a then b else a)"

text \<open>Decimal digits of a natural number, as \<^verbatim>\<open>Number.prototype.toString\<close> prints them.\<close>

definition digit_char :: "nat \<Rightarrow> char" where
  "digit_char d = ''0123456789'' ! d"

fun dec :: "nat \<Rightarrow> string" where
  "dec n = (if n < 10 then [digit_char n] else dec (n div 10) @ [digit_char (n mod 10)])"

declare dec.simps [simp del]

text \<open>
  What an object spread \<^verbatim>\<open>{...v}\<close> copies: the own enumerable properties of \<open>v\<close>.  An object
  gives its properties, a string its characters under their indices, every other value
  (\<^verbatim>\<open>undefined\<close>, \<^verbatim>\<open>null\<close>, booleans, numbers) nothing.
\<close>

fun ownProperties :: "jsval \<Rightarrow> (string, jsval) fmap" where
  "ownProperties (JObj m) = m"
| "ownProperties (JStr s) =
     fmap_of_list (zip (map dec [0..<length s]) (map (\<lambda>c. JStr [c]) s))"
| "ownProperties v = fmempty"

text \<open>Reading a property of an object: \<^verbatim>\<open>undefined\<close> when the object has no such property.\<close>

definition getProp :: "(string, jsval) fmap \<Rightarrow> string \<Rightarrow> jsval" where
  "getProp obj k = (case fmlookup obj k of None \<Rightarrow> JUndefined | Some v \<Rightarrow> v)"

section \<open>MobileModeBase: resolution of the mobile-mode configuration\<close>

datatype MobileModeControl = MENU | SELECT | COMBOBOX | MULTI_INPUT

text \<open>
  The interface \<^verbatim>\<open>MobileModeConfig\<close> is imported from another module
  (\<^verbatim>\<open>utils/interfaces/mobile-mode-config\<close>); the code only spreads it and reads its
  \<^verbatim>\<open>dialogConfig\<close> property, so a configuration is an object with arbitrary properties.  A value of that static type is an object, or absent
  (\<^verbatim>\<open>undefined\<close>/\<^verbatim>\<open>null\<close>, both falsy): \<open>None\<close>.
\<close>

type_synonym MobileModeConfig = "(string, jsval) fmap"

record MobileModeConfigToken =
  target :: MobileModeControl
  config :: "MobileModeConfig option"

text \<open>\<^verbatim>\<open>c || {}\<close> for a configuration that may be absent.\<close>

definition orEmpty :: "MobileModeConfig option \<Rightarrow> MobileModeConfig" where
  "orEmpty c = (case c of None \<Rightarrow> fmempty | Some m \<Rightarrow> m)"

text \<open>
  \<^verbatim>\<open>_mergeConfigs(config1, config2)\<close>: the object literal
  \<^verbatim>\<open>{...config1, ...config2, dialogConfig: {...(d1 && d1), ...(d2 && d2)}}\<close>, where \<open>d1\<close> and
  \<open>d2\<close> are the two \<^verbatim>\<open>dialogConfig\<close> properties; \<open>spreadDialogConfig\<close> is one inner spread
  \<^verbatim>\<open>...(c.dialogConfig && c.dialogConfig)\<close>.  Later entries of a literal overwrite earlier
  ones, which is what \<open>++\<^sub>f\<close> and \<open>fmupd\<close> do.
\<close>

definition spreadDialogConfig :: "MobileModeConfig \<Rightarrow> (string, jsval) fmap" where
  "spreadDialogConfig c =
     ownProperties (js_and (getProp c ''dialogConfig'') (getProp c ''dialogConfig''))"

definition mergeConfigs :: "MobileModeConfig \<Rightarrow> MobileModeConfig \<Rightarrow> MobileModeConfig" where
  "mergeConfigs config1 config2 =
     fmupd ''dialogConfig''
       (JObj (spreadDialogConfig config1 ++\<^sub>f spreadDialogConfig config2))
       (config1 ++\<^sub>f config2)"

text \<open>
  \<^verbatim>\<open>_getMobileModeConfig()\<close>.  The arguments are the fields it reads: the message constant
  \<^verbatim>\<open>MOBILE_CONFIG_ERROR\<close> (imported from the module \<^verbatim>\<open>consts\<close>, hence a parameter), the
  component's \<^verbatim>\<open>target\<close>, the injected list \<^verbatim>\<open>_mobileModes\<close> and the component's own
  \<^verbatim>\<open>mobileConfig\<close>.  \<^verbatim>\<open>Array.prototype.find\<close> returns the first element that satisfies the
  predicate, as \<open>List.find\<close> does.  The guard \<^verbatim>\<open>injectedConfig || mobileConfig\<close> and the
  conditional under it are one case distinction: an entry was found; none was found and the
  component has a configuration; neither.
\<close>

definition getMobileModeConfig ::
  "string \<Rightarrow> MobileModeControl \<Rightarrow> MobileModeConfigToken list \<Rightarrow> MobileModeConfig option
     \<Rightarrow> error + MobileModeConfig" where
  "getMobileModeConfig MOBILE_CONFIG_ERROR tgt mobileModes componentConfig =
     (case List.find (\<lambda>mode. target mode = tgt) mobileModes of
        Some injectedConfig \<Rightarrow>
          Inr (mergeConfigs (orEmpty (config injectedConfig)) (orEmpty componentConfig))
      | None \<Rightarrow>
          (case componentConfig of
             Some c \<Rightarrow> Inr c
           | None \<Rightarrow> Inl (Error MOBILE_CONFIG_ERROR)))"

text \<open>
  The fields the constructor of \<^verbatim>\<open>MobileModeBase\<close> sets.  The injected list may be absent
  (\<^verbatim>\<open>this._mobileModes || []\<close>); \<^verbatim>\<open>dialogConfig\<close> is read from the resolved configuration.
\<close>

record MobileModeBase =
  mobileModes :: "MobileModeConfigToken list"
  mobileConfig :: MobileModeConfig
  dialogConfig :: jsval

definition constructor ::
  "string \<Rightarrow> MobileModeControl \<Rightarrow> MobileModeConfigToken list option \<Rightarrow> MobileModeConfig option
     \<Rightarrow> error + MobileModeBase" where
  "constructor MOBILE_CONFIG_ERROR tgt injected componentConfig =
     (let modes = (case injected of None \<Rightarrow> [] | Some ms \<Rightarrow> ms) in
      case getMobileModeConfig MOBILE_CONFIG_ERROR tgt modes componentConfig of
        Inl e \<Rightarrow> Inl e
      | Inr mc \<Rightarrow>
          Inr \<lparr>mobileModes = modes, mobileConfig = mc,
               dialogConfig = getProp mc ''dialogConfig''\<rparr>)"

section \<open>TextAreaComponent: values and numbers\<close>

text \<open>
  A value used as a string (the control value, \<^verbatim>\<open>wrapType\<close>, \<^verbatim>\<open>height\<close>): a string, or
  \<^verbatim>\<open>undefined\<close> or \<^verbatim>\<open>null\<close> when the input was never set or was reset.  The elements of a
  string stand for its UTF-16 code units, which is what \<^verbatim>\<open>length\<close> and \<^verbatim>\<open>substring\<close> count.
\<close>

datatype strval = Undefined | Null | Str string

text \<open>\<^verbatim>\<open>if (v) f(v) else d\<close>: only a non-empty string is truthy.\<close>

definition whenTruthy :: "strval \<Rightarrow> (string \<Rightarrow> 'a) \<Rightarrow> 'a \<Rightarrow> 'a" where
  "whenTruthy v f d = (case v of Str s \<Rightarrow> if s \<noteq> [] then f s else d | _ \<Rightarrow> d)"

definition truthyS :: "strval \<Rightarrow> bool" where
  "truthyS v = whenTruthy v (\<lambda>_. True) False"

text \<open>
  A number: an integer, or \<open>None\<close>.  For an input (\<^verbatim>\<open>maxLength\<close>, \<^verbatim>\<open>growingMaxLines\<close>) \<open>None\<close> is
  \<^verbatim>\<open>undefined\<close>; for a computed number it is \<^verbatim>\<open>NaN\<close>, which is what arithmetic on \<^verbatim>\<open>undefined\<close>
  gives.  Both are falsy, as \<open>0\<close> is, and every comparison with them is false.
\<close>

type_synonym number = "int option"

definition truthyN :: "number \<Rightarrow> bool" where
  "truthyN x = (case x of None \<Rightarrow> False | Some n \<Rightarrow> n \<noteq> 0)"

definition num_add :: "number \<Rightarrow> number \<Rightarrow> number" where
  "num_add a b = (case (a, b) of (Some x, Some y) \<Rightarrow> Some (x + y) | _ \<Rightarrow> None)"

definition num_sub :: "number \<Rightarrow> number \<Rightarrow> number" where
  "num_sub a b = (case (a, b) of (Some x, Some y) \<Rightarrow> Some (x - y) | _ \<Rightarrow> None)"

definition num_mul :: "number \<Rightarrow> number \<Rightarrow> number" where
  "num_mul a b = (case (a, b) of (Some x, Some y) \<Rightarrow> Some (x * y) | _ \<Rightarrow> None)"

definition num_gt :: "number \<Rightarrow> number \<Rightarrow> bool" where
  "num_gt a b = (case (a, b) of (Some x, Some y) \<Rightarrow> x > y | _ \<Rightarrow> False)"

definition num_le :: "number \<Rightarrow> number \<Rightarrow> bool" where
  "num_le a b = (case (a, b) of (Some x, Some y) \<Rightarrow> x \<le> y | _ \<Rightarrow> False)"

text \<open>\<^verbatim>\<open>n + 'px'\<close> converts the number to a string first.\<close>

definition number_toString :: "number \<Rightarrow> string" where
  "number_toString x =
     (case x of
        None \<Rightarrow> ''NaN''
      | Some n \<Rightarrow> if n < 0 then CHR ''-'' # dec (nat (- n)) else dec (nat n))"

text \<open>
  \<^verbatim>\<open>parseInt(s, 10)\<close>: leading white space is skipped, one sign is read, then the longest run
  of decimal digits; \<^verbatim>\<open>NaN\<close> when that run is empty.  Whatever follows the digits is ignored.
\<close>

definition isWhiteSpace :: "char \<Rightarrow> bool" where
  "isWhiteSpace c = (c \<in> set [CHR 0x09, CHR 0x0A, CHR 0x0B, CHR 0x0C, CHR 0x0D, CHR '' ''])"

definition isDigit :: "char \<Rightarrow> bool" where
  "isDigit c = (c \<in> set ''0123456789'')"

definition digitValue :: "char \<Rightarrow> int" where
  "digitValue c = of_char c - 48"

definition digitsValue :: "string \<Rightarrow> int" where
  "digitsValue ds = foldl (\<lambda>a c. 10 * a + digitValue c) 0 ds"

definition parseInt :: "string \<Rightarrow> number" where
  "parseInt s =
     (let S = dropWhile isWhiteSpace s;
          sign = (if take 1 S = ''-'' then - 1 else 1);
          S' = (if take 1 S = ''-'' \<or> take 1 S = ''+'' then drop 1 S else S);
          Z = takeWhile isDigit S'
      in if Z = [] then None else Some (sign * digitsValue Z))"

text \<open>
  \<^verbatim>\<open>String.prototype.substring(start, end)\<close>: \<^verbatim>\<open>NaN\<close> counts as \<open>0\<close>, both indices are clamped
  to the string, and the smaller one is the start.
\<close>

definition substring :: "string \<Rightarrow> number \<Rightarrow> number \<Rightarrow> string" where
  "substring v a b =
     (let len = int (length v);
          clamp = (\<lambda>x. case x of None \<Rightarrow> 0 | Some i \<Rightarrow> min (max i 0) len);
          from = min (clamp a) (clamp b);
          to = max (clamp a) (clamp b)
      in take (nat (to - from)) (drop (nat from) v))"


section \<open>TextAreaComponent: state\<close>

text \<open>
  The native \<^verbatim>\<open>textarea\<close> element, as far as the component reads and writes it: two inline
  style properties (stored as assigned), what the browser reports about the element
  (\<open>scrollHeight\<close> is the value read after the height was reset to \<^verbatim>\<open>inherit\<close>; the computed
  border widths and line height are strings such as \<^verbatim>\<open>1px\<close>), and the effects of \<^verbatim>\<open>focus()\<close>
  and \<^verbatim>\<open>setSelectionRange\<close>.
\<close>

record nativeElement =
  style_height :: string
  style_maxHeight :: string
  scrollHeight :: int
  computed_borderTopWidth :: string
  computed_borderBottomWidth :: string
  computed_lineHeight :: string
  focused :: bool
  selectionRange :: "(number \<times> number) option"

text \<open>
  The fields of the component that the modelled methods touch.  \<open>stored_value\<close> is the
  control value kept by the base class \<^verbatim>\<open>BaseInput\<close>; \<open>textareaElement\<close> is the view child,
  \<open>None\<close> while it is unbound; \<open>stateChanges\<close> lists the notifications pushed to the
  \<^verbatim>\<open>stateChanges\<close> subject, oldest first.
\<close>

record TextAreaComponent =
  height :: strval
  growingMaxLines :: number
  wrapType :: strval
  maxLength :: number
  showExceededText :: bool
  growing :: bool
  stored_value :: strval
  textareaElement :: "nativeElement option"
  exceededCharCount :: number
  counterExcessOrRemaining :: string
  isValueCustomSet :: bool
  textAreaCharCount :: int
  isPasted :: bool
  stateChanges :: "string list"


definition remainingText :: string where
  "remainingText = ''remaining''"

definition excessText :: string where
  "excessText = ''excess''"

text \<open>Key codes of \<^verbatim>\<open>@angular/cdk/keycodes\<close>.\<close>

definition DELETE :: int where
  "DELETE = 46"

definition BACKSPACE :: int where
  "BACKSPACE = 8"

text \<open>A component as its field initialisers leave it, no input set and no view bound.\<close>

definition newTextArea :: TextAreaComponent where
  "newTextArea =
     \<lparr>height = Undefined, growingMaxLines = None, wrapType = Str ''soft'', maxLength = None,
      showExceededText = False, growing = False, stored_value = Undefined,
      textareaElement = None, exceededCharCount = Some 0,
      counterExcessOrRemaining = ''remaining'', isValueCustomSet = False,
      textAreaCharCount = 0, isPasted = False, stateChanges = []\<rparr>"

text \<open>A freshly rendered element with one-pixel borders.\<close>

definition newElement :: nativeElement where
  "newElement =
     \<lparr>style_height = [], style_maxHeight = [], scrollHeight = 0,
      computed_borderTopWidth = ''1px'', computed_borderBottomWidth = ''1px'',
      computed_lineHeight = ''20px'', focused = False, selectionRange = None\<rparr>"

text \<open>Sequencing of statements that may raise.\<close>

definition andThen :: "error + 'a \<Rightarrow> ('a \<Rightarrow> error + 'b) \<Rightarrow> error + 'b" where
  "andThen r f = (case r of Inl e \<Rightarrow> Inl e | Inr x \<Rightarrow> f x)"

text \<open>
  A statement \<^verbatim>\<open>this.textareaElement.nativeElement. ...\<close> that changes the element: a
  \<^verbatim>\<open>TypeError\<close> when the view child is unbound.
\<close>

definition withElement ::
  "(nativeElement \<Rightarrow> nativeElement) \<Rightarrow> TextAreaComponent \<Rightarrow> error + TextAreaComponent" where
  "withElement f s =
     (case textareaElement s of
        None \<Rightarrow> Inl TypeError
      | Some el \<Rightarrow> Inr (s\<lparr>textareaElement := Some (f el)\<rparr>))"

section \<open>TextAreaComponent: the base class\<close>

text \<open>
  The base class \<^verbatim>\<open>BaseInput\<close> is imported from the module \<^verbatim>\<open>base.input\<close>, whose source is
  missing.  The spec describes the control value accessor as the contract "to read/write
  its bound value" and the component state as one that "reflects the current control
  value"; the three members the component calls are modelled on those words.
\<close>

text \<open>
  Modelled from the spec: \<^verbatim>\<open>BaseInput.getValue()\<close>, which the getter of \<^verbatim>\<open>value\<close> returns.  It
  reads the stored control value.
\<close>

definition getValue :: "TextAreaComponent \<Rightarrow> strval" where
  "getValue s = stored_value s"

text \<open>
  Modelled from the spec: \<^verbatim>\<open>BaseInput.setValue(value)\<close>, which the setter of \<^verbatim>\<open>value\<close> calls.  It
  stores its argument as the control value.
\<close>

definition setValue :: "strval \<Rightarrow> TextAreaComponent \<Rightarrow> TextAreaComponent" where
  "setValue v s = s\<lparr>stored_value := v\<rparr>"

text \<open>
  Modelled from the spec: \<^verbatim>\<open>BaseInput.writeValue(value)\<close>, called as \<^verbatim>\<open>super.writeValue\<close>.  It
  stores its argument as the control value.
\<close>

definition super_writeValue :: "strval \<Rightarrow> TextAreaComponent \<Rightarrow> TextAreaComponent" where
  "super_writeValue v s = s\<lparr>stored_value := v\<rparr>"

section \<open>TextAreaComponent: methods\<close>

text \<open>The setter of \<^verbatim>\<open>value\<close>.\<close>

definition set_value :: "strval \<Rightarrow> TextAreaComponent \<Rightarrow> TextAreaComponent" where
  "set_value v s =
     (if truthyS v then setValue v s
      else super_writeValue (Str [])
             (s\<lparr>exceededCharCount := (if truthyN (maxLength s) then maxLength s else Some 0)\<rparr>))"



text \<open>\<^verbatim>\<open>validateLengthOnCustomSet()\<close>.\<close>

definition validateLengthOnCustomSet :: "TextAreaComponent \<Rightarrow> error + TextAreaComponent" where
  "validateLengthOnCustomSet s =
     andThen
       (if num_gt (Some (textAreaCharCount s)) (maxLength s)
        then andThen
               (if isPasted s
                then withElement
                       (\<lambda>el. el\<lparr>focused := True,
                                selectionRange :=
                                  Some (maxLength s, Some (textAreaCharCount s))\<rparr>) s
                else Inr s)
               (\<lambda>s1. Inr (s1\<lparr>counterExcessOrRemaining := excessText,
                               exceededCharCount :=
                                 num_sub (Some (textAreaCharCount s1)) (maxLength s1)\<rparr>))
        else Inr (s\<lparr>counterExcessOrRemaining := remainingText,
                     exceededCharCount :=
                       num_sub (maxLength s) (Some (textAreaCharCount s))\<rparr>))
       (\<lambda>s2. Inr (s2\<lparr>isPasted := False\<rparr>))"

text \<open>\<^verbatim>\<open>updateCounterInteractions()\<close>.\<close>

definition updateCounterInteractions :: "TextAreaComponent \<Rightarrow> error + TextAreaComponent" where
  "updateCounterInteractions s =
     whenTruthy (getValue s)
       (\<lambda>v. let s1 = s\<lparr>textAreaCharCount := int (length v)\<rparr>
            in if truthyN (maxLength s1) then validateLengthOnCustomSet s1 else Inr s1)
       (Inr s)"

text \<open>\<^verbatim>\<open>writeValue(value)\<close> of the control value accessor.\<close>

definition writeValue :: "strval \<Rightarrow> TextAreaComponent \<Rightarrow> error + TextAreaComponent" where
  "writeValue v s =
     (if truthyS v
      then andThen (updateCounterInteractions (super_writeValue v s))
             (\<lambda>s1. Inr (s1\<lparr>stateChanges := stateChanges s1 @ [''textarea: writeValue'']\<rparr>))
      else Inr s)"

text \<open>\<^verbatim>\<open>_getTextareaTotalHeight()\<close>, on the bound element.\<close>

definition getTextareaTotalHeight :: "nativeElement \<Rightarrow> number" where
  "getTextareaTotalHeight el =
     num_add (num_add (parseInt (computed_borderTopWidth el)) (Some (scrollHeight el)))
             (parseInt (computed_borderBottomWidth el))"

text \<open>\<^verbatim>\<open>autoGrowTextArea()\<close>.\<close>

definition autoGrowTextArea :: "TextAreaComponent \<Rightarrow> error + TextAreaComponent" where
  "autoGrowTextArea s =
     (if growing s
      then withElement
             (\<lambda>el0.
                let el = el0\<lparr>style_height := ''inherit''\<rparr>;
                    textareaTotalHeight = getTextareaTotalHeight el;
                    maxHeight = parseInt (style_maxHeight el)
                in if truthyN maxHeight
                   then if num_le textareaTotalHeight maxHeight
                        then el\<lparr>style_height := number_toString textareaTotalHeight @ ''px''\<rparr>
                        else whenTruthy (height s)
                               (\<lambda>h. el\<lparr>style_height := h\<rparr>)
                               (el\<lparr>style_height := number_toString maxHeight @ ''px''\<rparr>)
                   else el\<lparr>style_height := number_toString textareaTotalHeight @ ''px''\<rparr>)
             s
      else Inr s)"

text \<open>\<^verbatim>\<open>getTextareaLineHeight()\<close>.\<close>

definition getTextareaLineHeight :: "TextAreaComponent \<Rightarrow> number" where
  "getTextareaLineHeight s =
     (case textareaElement s of
        Some el \<Rightarrow> parseInt (computed_lineHeight el)
      | None \<Rightarrow> Some 20)"

text \<open>\<^verbatim>\<open>_setMaxHeight()\<close>, which \<^verbatim>\<open>ngAfterViewInit\<close> runs once.\<close>

definition setMaxHeight :: "TextAreaComponent \<Rightarrow> error + TextAreaComponent" where
  "setMaxHeight s =
     (if growing s \<and> textareaElement s \<noteq> None
      then andThen
             (if truthyN (growingMaxLines s)
              then withElement
                     (\<lambda>el. el\<lparr>style_maxHeight :=
                                 number_toString
                                   (num_mul (growingMaxLines s) (getTextareaLineHeight s))
                                 @ ''px''\<rparr>) s
              else Inr s)
             (\<lambda>s1. whenTruthy (height s1)
                      (\<lambda>h. withElement (\<lambda>el. el\<lparr>style_maxHeight := h\<rparr>) s1)
                      (Inr s1))
      else whenTruthy (height s)
             (\<lambda>h. withElement (\<lambda>el. el\<lparr>style_height := h\<rparr>) s)
             (Inr s))"

text \<open>\<^verbatim>\<open>handleBackPress(event)\<close>, the \<^verbatim>\<open>keyup\<close> listener; the argument is \<^verbatim>\<open>event.keyCode\<close>.\<close>

definition handleBackPress :: "int \<Rightarrow> TextAreaComponent \<Rightarrow> error + TextAreaComponent" where
  "handleBackPress keyCode s =
     andThen
       (if growing s
        then andThen (autoGrowTextArea s) (\<lambda>s1. Inr (s1\<lparr>isValueCustomSet := False\<rparr>))
        else Inr s)
       (\<lambda>s2.
          if \<not> showExceededText s2 \<and> (keyCode = DELETE \<or> keyCode = BACKSPACE)
          then whenTruthy (getValue s2)
                 (\<lambda>v. let s3 = s2\<lparr>textAreaCharCount := int (length v)\<rparr>
                      in if num_gt (Some (textAreaCharCount s3)) (maxLength s3)
                         then Inr ((set_value (Str (substring v (Some 0) (maxLength s3))) s3)
                                     \<lparr>isValueCustomSet := False\<rparr>)
                         else Inr s3)
                 (Inr s2)
          else Inr s2)"

section \<open>Facts about the configuration resolution\<close>

lemma find_None_iff_target:
  "(List.find (\<lambda>mode. target mode = tgt) ms = None) = (\<forall>m\<in>set ms. target m \<noteq> tgt)"
  by (auto simp add: find_None_iff)

lemma spreadDialogConfig_obj:
  "fmlookup c ''dialogConfig'' = Some (JObj d) \<Longrightarrow> spreadDialogConfig c = d"
  by (simp add: spreadDialogConfig_def getProp_def js_and_def)

lemma spreadDialogConfig_absent:
  "fmlookup c ''dialogConfig'' = None \<Longrightarrow> spreadDialogConfig c = fmempty"
  by (simp add: spreadDialogConfig_def getProp_def js_and_def)

lemma mergeConfigs_dialogConfig:
  "fmlookup (mergeConfigs c1 c2) ''dialogConfig''
     = Some (JObj (spreadDialogConfig c1 ++\<^sub>f spreadDialogConfig c2))"
  by (simp add: mergeConfigs_def)

lemma mergeConfigs_other:
  "k \<noteq> ''dialogConfig'' \<Longrightarrow> fmlookup (mergeConfigs c1 c2) k = fmlookup (c1 ++\<^sub>f c2) k"
  by (simp add: mergeConfigs_def)

lemma find_first_match:
  "\<forall>m\<in>set pre. \<not> P m \<Longrightarrow> P e \<Longrightarrow> List.find P (pre @ e # post) = Some e"
  by (induction pre) simp_all

lemma getMobileModeConfig_found:
  "List.find (\<lambda>mode. target mode = tgt) ms = Some e \<Longrightarrow>
   getMobileModeConfig msg tgt ms own = Inr (mergeConfigs (orEmpty (config e)) (orEmpty own))"
  by (simp add: getMobileModeConfig_def)

text \<open>
  C1.  Resolution raises, and then with the message constant, exactly when the injected list
  has no entry for the component's target and the component has no configuration of its
  own; in every other case a configuration is returned.
\<close>

theorem getMobileModeConfig_error_iff:
  "(getMobileModeConfig msg tgt ms own = Inl (Error msg))
     = ((\<forall>m\<in>set ms. target m \<noteq> tgt) \<and> own = None)
   \<and> ((\<exists>e. getMobileModeConfig msg tgt ms own = Inl e)
     = ((\<forall>m\<in>set ms. target m \<noteq> tgt) \<and> own = None))
   \<and> (((\<exists>m\<in>set ms. target m = tgt) \<or> own \<noteq> None)
     = (\<exists>c. getMobileModeConfig msg tgt ms own = Inr c))"
proof -
  show ?thesis
  proof (cases "List.find (\<lambda>mode. target mode = tgt) ms")
    case None
    then have no: "\<forall>m\<in>set ms. target m \<noteq> tgt"
      by (simp add: find_None_iff_target)
    from None no show ?thesis
      by (cases own) (simp_all add: getMobileModeConfig_def)
  next
    case (Some e)
    then have "\<not> (\<forall>m\<in>set ms. target m \<noteq> tgt)"
      by (simp add: find_None_iff_target [symmetric])
    with Some show ?thesis
      by (simp add: getMobileModeConfig_def)
  qed
qed

theorem getMobileModeConfig_error_iff_witness:
  "getMobileModeConfig ''no config'' MENU [\<lparr>target = SELECT, config = None\<rparr>] None
     = Inl (Error ''no config'')
   \<and> (\<exists>c. getMobileModeConfig ''no config'' MENU
            [\<lparr>target = SELECT, config = None\<rparr>, \<lparr>target = MENU, config = None\<rparr>] None = Inr c)"
proof -
  have a: "getMobileModeConfig ''no config'' MENU [\<lparr>target = SELECT, config = None\<rparr>] None
     = Inl (Error ''no config'')"
    using getMobileModeConfig_error_iff
      [of "''no config''" MENU "[\<lparr>target = SELECT, config = None\<rparr>]" None]
    by simp
  have b: "\<exists>c. getMobileModeConfig ''no config'' MENU
            [\<lparr>target = SELECT, config = None\<rparr>, \<lparr>target = MENU, config = None\<rparr>] None = Inr c"
    using getMobileModeConfig_error_iff
      [of "''no config''" MENU
          "[\<lparr>target = SELECT, config = None\<rparr>, \<lparr>target = MENU, config = None\<rparr>]" None]
    by simp
  from a b show ?thesis by simp
qed

text \<open>
  C2, as amended.  With an injected entry for the target whose configuration is \<open>c1\<close> and a
  component configuration \<open>c2\<close>, the resolved configuration takes, for every key other than
  \<^verbatim>\<open>dialogConfig\<close>, the value of \<open>c2\<close> when \<open>c2\<close> defines the key and the value of \<open>c1\<close>
  otherwise.  Under \<^verbatim>\<open>dialogConfig\<close> it holds a copy of the one object when only one
  configuration defines it, and the one-level merge of the two objects when both do: then it
  is not the component-level value.
\<close>

theorem getMobileModeConfig_merge_keys:
  assumes found: "List.find (\<lambda>mode. target mode = tgt) ms = Some e"
    and inj: "config e = Some c1"
  shows "\<exists>r. getMobileModeConfig msg tgt ms (Some c2) = Inr r
     \<and> (\<forall>k. k \<noteq> ''dialogConfig'' \<longrightarrow> k \<in> fmdom' c2 \<longrightarrow> fmlookup r k = fmlookup c2 k)
     \<and> (\<forall>k. k \<noteq> ''dialogConfig'' \<longrightarrow> k \<notin> fmdom' c2 \<longrightarrow> fmlookup r k = fmlookup c1 k)
     \<and> (\<forall>d1. fmlookup c1 ''dialogConfig'' = Some (JObj d1) \<longrightarrow> ''dialogConfig'' \<notin> fmdom' c2
           \<longrightarrow> fmlookup r ''dialogConfig'' = fmlookup c1 ''dialogConfig'')
     \<and> (\<forall>d2. ''dialogConfig'' \<notin> fmdom' c1 \<longrightarrow> fmlookup c2 ''dialogConfig'' = Some (JObj d2)
           \<longrightarrow> fmlookup r ''dialogConfig'' = fmlookup c2 ''dialogConfig'')
     \<and> (\<forall>d1 d2. fmlookup c1 ''dialogConfig'' = Some (JObj d1)
           \<longrightarrow> fmlookup c2 ''dialogConfig'' = Some (JObj d2)
           \<longrightarrow> fmlookup r ''dialogConfig'' = Some (JObj (d1 ++\<^sub>f d2)))"
proof -
  let ?r = "mergeConfigs c1 c2"
  have res: "getMobileModeConfig msg tgt ms (Some c2) = Inr ?r"
    using getMobileModeConfig_found [OF found, of msg "Some c2"] inj
    by (simp add: orEmpty_def)
  have both: "\<forall>k. k \<noteq> ''dialogConfig'' \<longrightarrow> k \<in> fmdom' c2 \<longrightarrow> fmlookup ?r k = fmlookup c2 k"
    by (simp add: mergeConfigs_other fmdom'_alt_def)
  have left: "\<forall>k. k \<noteq> ''dialogConfig'' \<longrightarrow> k \<notin> fmdom' c2 \<longrightarrow> fmlookup ?r k = fmlookup c1 k"
    by (simp add: mergeConfigs_other fmdom'_alt_def)
  have dc1: "\<forall>d1. fmlookup c1 ''dialogConfig'' = Some (JObj d1) \<longrightarrow> ''dialogConfig'' \<notin> fmdom' c2
           \<longrightarrow> fmlookup ?r ''dialogConfig'' = fmlookup c1 ''dialogConfig''"
    by (auto simp add: mergeConfigs_dialogConfig spreadDialogConfig_obj
        spreadDialogConfig_absent fmdom'_notD)
  have dc2: "\<forall>d2. ''dialogConfig'' \<notin> fmdom' c1 \<longrightarrow> fmlookup c2 ''dialogConfig'' = Some (JObj d2)
           \<longrightarrow> fmlookup ?r ''dialogConfig'' = fmlookup c2 ''dialogConfig''"
    by (auto simp add: mergeConfigs_dialogConfig spreadDialogConfig_obj
        spreadDialogConfig_absent fmdom'_notD)
  have dc12: "\<forall>d1 d2. fmlookup c1 ''dialogConfig'' = Some (JObj d1)
           \<longrightarrow> fmlookup c2 ''dialogConfig'' = Some (JObj d2)
           \<longrightarrow> fmlookup ?r ''dialogConfig'' = Some (JObj (d1 ++\<^sub>f d2))"
    by (simp add: mergeConfigs_dialogConfig spreadDialogConfig_obj)
  from res both left dc1 dc2 dc12 show ?thesis by blast
qed


theorem getMobileModeConfig_merge_keys_witness:
  "\<exists>r. getMobileModeConfig ''e'' SELECT
         [\<lparr>target = MENU, config = None\<rparr>,
          \<lparr>target = SELECT, config = Some (fmap_of_list
             [(''title'', JStr ''injected''), (''hasCloseButton'', JBool True)])\<rparr>]
         (Some (fmap_of_list [(''title'', JStr ''own''), (''approveButtonText'', JStr ''OK'')]))
       = Inr r
     \<and> fmlookup r ''title'' = Some (JStr ''own'')
     \<and> fmlookup r ''hasCloseButton'' = Some (JBool True)
     \<and> fmlookup r ''approveButtonText'' = Some (JStr ''OK'')"
proof -
  let ?e = "\<lparr>target = SELECT, config = Some (fmap_of_list
             [(''title'', JStr ''injected''), (''hasCloseButton'', JBool True)])\<rparr>"
  let ?ms = "[\<lparr>target = MENU, config = None\<rparr>, ?e]"
  have found: "List.find (\<lambda>mode. target mode = SELECT) ?ms = Some ?e"
    by simp
  have inj: "config ?e = Some (fmap_of_list
             [(''title'', JStr ''injected''), (''hasCloseButton'', JBool True)])"
    by simp
  from getMobileModeConfig_merge_keys [OF found inj, of "''e''"
      "fmap_of_list [(''title'', JStr ''own''), (''approveButtonText'', JStr ''OK'')]"]
  obtain r where r: "getMobileModeConfig ''e'' SELECT ?ms
         (Some (fmap_of_list [(''title'', JStr ''own''), (''approveButtonText'', JStr ''OK'')]))
       = Inr r"
    and both: "\<forall>k. k \<noteq> ''dialogConfig'' \<longrightarrow>
       k \<in> fmdom' (fmap_of_list [(''title'', JStr ''own''), (''approveButtonText'', JStr ''OK'')])
       \<longrightarrow> fmlookup r k
          = fmlookup (fmap_of_list [(''title'', JStr ''own''), (''approveButtonText'', JStr ''OK'')]) k"
    and left: "\<forall>k. k \<noteq> ''dialogConfig'' \<longrightarrow>
       k \<notin> fmdom' (fmap_of_list [(''title'', JStr ''own''), (''approveButtonText'', JStr ''OK'')])
       \<longrightarrow> fmlookup r k
          = fmlookup (fmap_of_list [(''title'', JStr ''injected''), (''hasCloseButton'', JBool True)]) k"
    by blast
  have t: "fmlookup r ''title'' = Some (JStr ''own'')"
    using both [rule_format, of "''title''"] by (simp add: fmlookup_of_list fmdom'_alt_def)
  have a: "fmlookup r ''approveButtonText'' = Some (JStr ''OK'')"
    using both [rule_format, of "''approveButtonText''"]
    by (simp add: fmlookup_of_list fmdom'_alt_def)
  have h: "fmlookup r ''hasCloseButton'' = Some (JBool True)"
    using left [rule_format, of "''hasCloseButton''"]
    by (simp add: fmlookup_of_list fmdom'_alt_def)
  from r t a h show ?thesis by blast
qed

text \<open>
  C2 as stated fails at the key \<^verbatim>\<open>dialogConfig\<close>: both configurations define it, and the
  resolved value is the merge of the two objects, not the component-level one.
\<close>

theorem getMobileModeConfig_dialogConfig_counterexample:
  "getMobileModeConfig ''e'' MENU
     [\<lparr>target = MENU, config = Some (fmap_of_list
        [(''dialogConfig'', JObj (fmap_of_list [(''width'', JStr ''100px'')]))])\<rparr>]
     (Some (fmap_of_list
        [(''dialogConfig'', JObj (fmap_of_list [(''height'', JStr ''50px'')]))]))
   = Inr (fmap_of_list
        [(''dialogConfig'', JObj (fmap_of_list
            [(''width'', JStr ''100px''), (''height'', JStr ''50px'')]))])
   \<and> fmlookup (fmap_of_list
        [(''dialogConfig'', JObj (fmap_of_list
            [(''width'', JStr ''100px''), (''height'', JStr ''50px'')]))]) ''dialogConfig''
     \<noteq> fmlookup (fmap_of_list
        [(''dialogConfig'', JObj (fmap_of_list [(''height'', JStr ''50px'')]))]) ''dialogConfig''"
proof -
  have inner: "fmap_of_list [(''width'', JStr ''100px'')] ++\<^sub>f fmap_of_list [(''height'', JStr ''50px'')]
      = fmap_of_list [(''width'', JStr ''100px''), (''height'', JStr ''50px'')]"
    by (rule fmap_ext) (auto simp add: fmlookup_of_list)
  have sp1: "spreadDialogConfig
      (fmap_of_list [(''dialogConfig'', JObj (fmap_of_list [(''width'', JStr ''100px'')]))])
    = fmap_of_list [(''width'', JStr ''100px'')]"
    by (rule spreadDialogConfig_obj) (simp add: fmlookup_of_list)
  have sp2: "spreadDialogConfig
      (fmap_of_list [(''dialogConfig'', JObj (fmap_of_list [(''height'', JStr ''50px'')]))])
    = fmap_of_list [(''height'', JStr ''50px'')]"
    by (rule spreadDialogConfig_obj) (simp add: fmlookup_of_list)
  have outer: "mergeConfigs
      (fmap_of_list [(''dialogConfig'', JObj (fmap_of_list [(''width'', JStr ''100px'')]))])
      (fmap_of_list [(''dialogConfig'', JObj (fmap_of_list [(''height'', JStr ''50px'')]))])
    = fmap_of_list [(''dialogConfig'', JObj (fmap_of_list
            [(''width'', JStr ''100px''), (''height'', JStr ''50px'')]))]"
    unfolding mergeConfigs_def sp1 sp2 inner
    by (rule fmap_ext) (auto simp add: fmlookup_of_list)
  have res: "getMobileModeConfig ''e'' MENU
     [\<lparr>target = MENU, config = Some (fmap_of_list
        [(''dialogConfig'', JObj (fmap_of_list [(''width'', JStr ''100px'')]))])\<rparr>]
     (Some (fmap_of_list
        [(''dialogConfig'', JObj (fmap_of_list [(''height'', JStr ''50px'')]))]))
   = Inr (fmap_of_list
        [(''dialogConfig'', JObj (fmap_of_list
            [(''width'', JStr ''100px''), (''height'', JStr ''50px'')]))])"
    by (simp add: getMobileModeConfig_def orEmpty_def outer del: fmap_of_list_simps)
  have ne: "fmap_of_list [(''width'', JStr ''100px''), (''height'', JStr ''50px'')]
      \<noteq> fmap_of_list [(''height'', JStr ''50px'')]"
  proof
    assume eq: "fmap_of_list [(''width'', JStr ''100px''), (''height'', JStr ''50px'')]
      = fmap_of_list [(''height'', JStr ''50px'')]"
    have "fmlookup (fmap_of_list [(''width'', JStr ''100px''), (''height'', JStr ''50px'')]) ''width''
      = fmlookup (fmap_of_list [(''height'', JStr ''50px'')]) ''width''"
      by (simp only: eq)
    then show False
      by (simp add: fmlookup_of_list)
  qed
  from res ne show ?thesis
    by (simp add: fmlookup_of_list del: fmap_of_list_simps)
qed

text \<open>
  C3.  The merged \<^verbatim>\<open>dialogConfig\<close> is an object whose keys are those of the two inputs'
  \<^verbatim>\<open>dialogConfig\<close> objects together; on a key of the second its value is the second's, as it
  stands (nothing below that level is merged), on every other key it is the first's.  Every
  other key of the result is the plain shallow spread of the two configurations.  The
  inner spread of a configuration is its \<^verbatim>\<open>dialogConfig\<close> object, and empty when it has none.
\<close>

theorem mergeConfigs_one_level:
  "\<exists>d. fmlookup (mergeConfigs c1 c2) ''dialogConfig'' = Some (JObj d)
     \<and> fmdom' d = fmdom' (spreadDialogConfig c1) \<union> fmdom' (spreadDialogConfig c2)
     \<and> (\<forall>k\<in>fmdom' (spreadDialogConfig c2). fmlookup d k = fmlookup (spreadDialogConfig c2) k)
     \<and> (\<forall>k. k \<notin> fmdom' (spreadDialogConfig c2)
            \<longrightarrow> fmlookup d k = fmlookup (spreadDialogConfig c1) k)
     \<and> (\<forall>k. k \<noteq> ''dialogConfig''
            \<longrightarrow> fmlookup (mergeConfigs c1 c2) k = fmlookup (c1 ++\<^sub>f c2) k)
     \<and> (\<forall>m. fmlookup c1 ''dialogConfig'' = Some (JObj m) \<longrightarrow> spreadDialogConfig c1 = m)
     \<and> (\<forall>m. fmlookup c2 ''dialogConfig'' = Some (JObj m) \<longrightarrow> spreadDialogConfig c2 = m)
     \<and> (fmlookup c1 ''dialogConfig'' = None \<longrightarrow> spreadDialogConfig c1 = fmempty)
     \<and> (fmlookup c2 ''dialogConfig'' = None \<longrightarrow> spreadDialogConfig c2 = fmempty)"
proof -
  let ?d = "spreadDialogConfig c1 ++\<^sub>f spreadDialogConfig c2"
  have a: "fmlookup (mergeConfigs c1 c2) ''dialogConfig'' = Some (JObj ?d)"
    by (rule mergeConfigs_dialogConfig)
  have b: "fmdom' ?d = fmdom' (spreadDialogConfig c1) \<union> fmdom' (spreadDialogConfig c2)"
    by simp
  have c: "\<forall>k\<in>fmdom' (spreadDialogConfig c2). fmlookup ?d k = fmlookup (spreadDialogConfig c2) k"
    by (simp add: fmdom'_alt_def)
  have d: "\<forall>k. k \<notin> fmdom' (spreadDialogConfig c2)
            \<longrightarrow> fmlookup ?d k = fmlookup (spreadDialogConfig c1) k"
    by (simp add: fmdom'_alt_def)
  have e: "\<forall>k. k \<noteq> ''dialogConfig''
            \<longrightarrow> fmlookup (mergeConfigs c1 c2) k = fmlookup (c1 ++\<^sub>f c2) k"
    by (simp add: mergeConfigs_other)
  have f: "\<forall>c m. fmlookup c ''dialogConfig'' = Some (JObj m) \<longrightarrow> spreadDialogConfig c = m"
    by (simp add: spreadDialogConfig_obj)
  have g: "\<forall>c. fmlookup c ''dialogConfig'' = None \<longrightarrow> spreadDialogConfig c = fmempty"
    by (simp add: spreadDialogConfig_absent)
  from a b c d e f g show ?thesis by blast
qed

theorem mergeConfigs_one_level_witness:
  "\<exists>d. fmlookup (mergeConfigs
          (fmap_of_list [(''dialogConfig'', JObj (fmap_of_list
              [(''position'', JObj (fmap_of_list [(''top'', JNum 1)])), (''width'', JNum 3)]))])
          (fmap_of_list [(''dialogConfig'', JObj (fmap_of_list
              [(''position'', JObj (fmap_of_list [(''left'', JNum 2)]))]))]))
        ''dialogConfig'' = Some (JObj d)
     \<and> fmlookup d ''position'' = Some (JObj (fmap_of_list [(''left'', JNum 2)]))
     \<and> fmlookup d ''width'' = Some (JNum 3)"
proof -
  let ?c1 = "fmap_of_list [(''dialogConfig'', JObj (fmap_of_list
              [(''position'', JObj (fmap_of_list [(''top'', JNum 1)])), (''width'', JNum 3)]))]"
  let ?c2 = "fmap_of_list [(''dialogConfig'', JObj (fmap_of_list
              [(''position'', JObj (fmap_of_list [(''left'', JNum 2)]))]))]"
  from mergeConfigs_one_level [of ?c1 ?c2]
  obtain d where d: "fmlookup (mergeConfigs ?c1 ?c2) ''dialogConfig'' = Some (JObj d)"
    and win: "\<forall>k\<in>fmdom' (spreadDialogConfig ?c2).
                fmlookup d k = fmlookup (spreadDialogConfig ?c2) k"
    and keep: "\<forall>k. k \<notin> fmdom' (spreadDialogConfig ?c2)
                \<longrightarrow> fmlookup d k = fmlookup (spreadDialogConfig ?c1) k"
    by blast
  have p: "fmlookup d ''position'' = Some (JObj (fmap_of_list [(''left'', JNum 2)]))"
    using win [rule_format, of "''position''"]
    by (simp add: spreadDialogConfig_def getProp_def js_and_def)
  have w: "fmlookup d ''width'' = Some (JNum 3)"
    using keep [rule_format, of "''width''"]
    by (simp add: spreadDialogConfig_def getProp_def js_and_def)
  from d p w show ?thesis by blast
qed

text \<open>
  C7.  When no entry of the injected list has the component's target and the component has
  a configuration, the result is that configuration, unchanged.  When some entry has the
  target, the first such entry of the list is the one that is merged.
\<close>

theorem getMobileModeConfig_fallback_and_first:
  "((\<forall>m\<in>set ms. target m \<noteq> tgt) \<longrightarrow> getMobileModeConfig msg tgt ms (Some c) = Inr c)
   \<and> ((\<forall>m\<in>set pre. target m \<noteq> tgt) \<and> target e = tgt \<longrightarrow>
        getMobileModeConfig msg tgt (pre @ e # post) own
          = Inr (mergeConfigs (orEmpty (config e)) (orEmpty own)))"
proof (intro conjI impI)
  assume "\<forall>m\<in>set ms. target m \<noteq> tgt"
  then have "List.find (\<lambda>mode. target mode = tgt) ms = None"
    by (simp add: find_None_iff_target)
  then show "getMobileModeConfig msg tgt ms (Some c) = Inr c"
    by (simp add: getMobileModeConfig_def)
next
  assume "(\<forall>m\<in>set pre. target m \<noteq> tgt) \<and> target e = tgt"
  then have "List.find (\<lambda>mode. target mode = tgt) (pre @ e # post) = Some e"
    by (simp add: find_first_match)
  then show "getMobileModeConfig msg tgt (pre @ e # post) own
          = Inr (mergeConfigs (orEmpty (config e)) (orEmpty own))"
    by (rule getMobileModeConfig_found)
qed

theorem getMobileModeConfig_fallback_and_first_witness:
  "getMobileModeConfig ''e'' COMBOBOX [\<lparr>target = MENU, config = None\<rparr>]
      (Some (fmap_of_list [(''title'', JStr ''own'')]))
     = Inr (fmap_of_list [(''title'', JStr ''own'')])
   \<and> getMobileModeConfig ''e'' COMBOBOX
        ([\<lparr>target = MENU, config = None\<rparr>]
          @ \<lparr>target = COMBOBOX, config = Some (fmap_of_list [(''title'', JStr ''first'')])\<rparr>
          # [\<lparr>target = COMBOBOX, config = Some (fmap_of_list [(''title'', JStr ''second'')])\<rparr>])
        None
     = Inr (mergeConfigs (fmap_of_list [(''title'', JStr ''first'')]) fmempty)"
proof -
  have a: "getMobileModeConfig ''e'' COMBOBOX [\<lparr>target = MENU, config = None\<rparr>]
      (Some (fmap_of_list [(''title'', JStr ''own'')]))
     = Inr (fmap_of_list [(''title'', JStr ''own'')])"
    using getMobileModeConfig_fallback_and_first
      [of "[\<lparr>target = MENU, config = None\<rparr>]" COMBOBOX "''e''"
          "fmap_of_list [(''title'', JStr ''own'')]"]
    by simp
  have b: "getMobileModeConfig ''e'' COMBOBOX
        ([\<lparr>target = MENU, config = None\<rparr>]
          @ \<lparr>target = COMBOBOX, config = Some (fmap_of_list [(''title'', JStr ''first'')])\<rparr>
          # [\<lparr>target = COMBOBOX, config = Some (fmap_of_list [(''title'', JStr ''second'')])\<rparr>])
        None
     = Inr (mergeConfigs (fmap_of_list [(''title'', JStr ''first'')]) fmempty)"
    using getMobileModeConfig_fallback_and_first
      [of _ COMBOBOX _ _ "[\<lparr>target = MENU, config = None\<rparr>]"
          "\<lparr>target = COMBOBOX, config = Some (fmap_of_list [(''title'', JStr ''first'')])\<rparr>"
          "[\<lparr>target = COMBOBOX, config = Some (fmap_of_list [(''title'', JStr ''second'')])\<rparr>]"
          None]
    by (simp add: orEmpty_def del: fmap_of_list_simps)
  from a b show ?thesis by blast
qed

text \<open>
  C10.  When the injected list has an entry for the target, the resolved configuration has
  an object under \<^verbatim>\<open>dialogConfig\<close>, which the constructor stores; it is the empty object when
  neither configuration has a \<^verbatim>\<open>dialogConfig\<close>.  In the fallback branch, with a component
  configuration that has no \<^verbatim>\<open>dialogConfig\<close>, the stored \<^verbatim>\<open>dialogConfig\<close> is \<^verbatim>\<open>undefined\<close>.
\<close>

theorem constructor_dialogConfig_defined:
  "(List.find (\<lambda>mode. target mode = tgt) ms = Some e \<longrightarrow>
      (\<exists>st d. constructor msg tgt (Some ms) own = Inr st
         \<and> fmlookup (mobileConfig st) ''dialogConfig'' = Some (JObj d)
         \<and> dialogConfig st = JObj d
         \<and> (fmlookup (orEmpty (config e)) ''dialogConfig'' = None
              \<and> fmlookup (orEmpty own) ''dialogConfig'' = None \<longrightarrow> d = fmempty)))
   \<and> (List.find (\<lambda>mode. target mode = tgt) ms = None
        \<and> fmlookup c ''dialogConfig'' = None \<longrightarrow>
      (\<exists>st. constructor msg tgt (Some ms) (Some c) = Inr st
         \<and> mobileConfig st = c
         \<and> fmlookup (mobileConfig st) ''dialogConfig'' = None
         \<and> dialogConfig st = JUndefined))"
proof (intro conjI impI)
  assume found: "List.find (\<lambda>mode. target mode = tgt) ms = Some e"
  let ?c1 = "orEmpty (config e)" and ?c2 = "orEmpty own"
  let ?d = "spreadDialogConfig ?c1 ++\<^sub>f spreadDialogConfig ?c2"
  let ?st = "\<lparr>mobileModes = ms, mobileConfig = mergeConfigs ?c1 ?c2, dialogConfig = JObj ?d\<rparr>"
  have "constructor msg tgt (Some ms) own = Inr ?st"
    by (simp add: constructor_def getMobileModeConfig_found [OF found] getProp_def
        mergeConfigs_dialogConfig)
  moreover have "fmlookup (mobileConfig ?st) ''dialogConfig'' = Some (JObj ?d)"
    by (simp add: mergeConfigs_dialogConfig)
  moreover have "dialogConfig ?st = JObj ?d"
    by simp
  moreover have "fmlookup ?c1 ''dialogConfig'' = None \<and> fmlookup ?c2 ''dialogConfig'' = None
      \<longrightarrow> ?d = fmempty"
    by (simp add: spreadDialogConfig_absent)
  ultimately show "\<exists>st d. constructor msg tgt (Some ms) own = Inr st
         \<and> fmlookup (mobileConfig st) ''dialogConfig'' = Some (JObj d)
         \<and> dialogConfig st = JObj d
         \<and> (fmlookup (orEmpty (config e)) ''dialogConfig'' = None
              \<and> fmlookup (orEmpty own) ''dialogConfig'' = None \<longrightarrow> d = fmempty)"
    by blast
next
  assume "List.find (\<lambda>mode. target mode = tgt) ms = None \<and> fmlookup c ''dialogConfig'' = None"
  then show "\<exists>st. constructor msg tgt (Some ms) (Some c) = Inr st
         \<and> mobileConfig st = c
         \<and> fmlookup (mobileConfig st) ''dialogConfig'' = None
         \<and> dialogConfig st = JUndefined"
    by (simp add: constructor_def getMobileModeConfig_def getProp_def)
qed

theorem constructor_dialogConfig_defined_witness:
  "(\<exists>st. constructor ''e'' MENU (Some [\<lparr>target = MENU, config = None\<rparr>]) None = Inr st
        \<and> dialogConfig st = JObj fmempty)
   \<and> (\<exists>st. constructor ''e'' MENU (Some [])
               (Some (fmap_of_list [(''title'', JStr ''own'')])) = Inr st
        \<and> dialogConfig st = JUndefined)"
proof -
  have f: "List.find (\<lambda>mode. target mode = MENU) [\<lparr>target = MENU, config = None\<rparr>]
      = Some \<lparr>target = MENU, config = None\<rparr>"
    by simp
  have a: "\<exists>st. constructor ''e'' MENU (Some [\<lparr>target = MENU, config = None\<rparr>]) None = Inr st
        \<and> dialogConfig st = JObj fmempty"
    using constructor_dialogConfig_defined
      [of MENU "[\<lparr>target = MENU, config = None\<rparr>]" "\<lparr>target = MENU, config = None\<rparr>"
          "''e''" None]
    by (auto simp add: orEmpty_def)
  have b: "\<exists>st. constructor ''e'' MENU (Some [])
               (Some (fmap_of_list [(''title'', JStr ''own'')])) = Inr st
        \<and> dialogConfig st = JUndefined"
    using constructor_dialogConfig_defined
      [of MENU "[]" _ "''e''" _ "fmap_of_list [(''title'', JStr ''own'')]"]
    by (auto simp add: fmlookup_of_list)
  from a b show ?thesis by blast
qed

section \<open>Facts about the text area\<close>

lemma truthyS_Str: "truthyS (Str v) = (v \<noteq> [])"
  by (simp add: truthyS_def whenTruthy_def)






text \<open>
  C8.  \<^verbatim>\<open>writeValue\<close> with \<^verbatim>\<open>undefined\<close>, \<^verbatim>\<open>null\<close> or the empty string returns the component as
  it was: the stored value, the character count, \<^verbatim>\<open>exceededCharCount\<close>, the indicator and the
  list of notifications are all unchanged.
\<close>

theorem writeValue_falsy_noop:
  "writeValue Undefined s = Inr s \<and> writeValue Null s = Inr s \<and> writeValue (Str []) s = Inr s
   \<and> (\<not> truthyS v \<longrightarrow> writeValue v s = Inr s)"
  by (simp add: writeValue_def truthyS_def whenTruthy_def)

theorem writeValue_falsy_noop_witness:
  "writeValue (Str [])
     (newTextArea\<lparr>maxLength := Some 5, stored_value := Str ''hello world'',
                  textAreaCharCount := 11, exceededCharCount := Some 6,
                  counterExcessOrRemaining := ''excess''\<rparr>)
   = Inr (newTextArea\<lparr>maxLength := Some 5, stored_value := Str ''hello world'',
                  textAreaCharCount := 11, exceededCharCount := Some 6,
                  counterExcessOrRemaining := ''excess''\<rparr>)"
  using writeValue_falsy_noop [of _ "Str []"]
  by (simp add: truthyS_def whenTruthy_def)

lemma andThen_Inr [simp]: "andThen (Inr x) f = f x"
  by (simp add: andThen_def)

lemma andThen_Inl [simp]: "andThen (Inl e) f = Inl e"
  by (simp add: andThen_def)

lemma whenTruthy_Str: "v \<noteq> [] \<Longrightarrow> whenTruthy (Str v) f d = f v"
  by (simp add: whenTruthy_def)

lemma withElement_Some: "textareaElement s = Some el \<Longrightarrow>
    withElement f s = Inr (s\<lparr>textareaElement := Some (f el)\<rparr>)"
  by (simp add: withElement_def)

lemma withElement_None: "textareaElement s = None \<Longrightarrow> withElement f s = Inl TypeError"
  by (simp add: withElement_def)

lemma validateLengthOnCustomSet_excess:
  assumes "maxLength s = Some m" "textAreaCharCount s > m"
  shows "validateLengthOnCustomSet s =
     (if isPasted s \<and> textareaElement s = None then Inl TypeError
      else Inr (s\<lparr>textareaElement :=
                    (if isPasted s
                     then map_option (\<lambda>el. el\<lparr>focused := True,
                            selectionRange := Some (Some m, Some (textAreaCharCount s))\<rparr>)
                            (textareaElement s)
                     else textareaElement s),
                  counterExcessOrRemaining := ''excess'',
                  exceededCharCount := Some (textAreaCharCount s - m),
                  isPasted := False\<rparr>))"
proof (cases "textareaElement s")
  case None
  with assms show ?thesis
    by (simp add: validateLengthOnCustomSet_def num_gt_def num_sub_def excessText_def
        withElement_None)
next
  case (Some el)
  with assms show ?thesis
    by (simp add: validateLengthOnCustomSet_def num_gt_def num_sub_def excessText_def
        withElement_Some)
qed

lemma validateLengthOnCustomSet_remaining:
  assumes "maxLength s = Some m" "\<not> textAreaCharCount s > m"
  shows "validateLengthOnCustomSet s =
     Inr (s\<lparr>counterExcessOrRemaining := ''remaining'',
             exceededCharCount := Some (m - textAreaCharCount s),
             isPasted := False\<rparr>)"
  using assms
  by (simp add: validateLengthOnCustomSet_def num_gt_def num_sub_def remainingText_def)

lemma updateCounterInteractions_unfold:
  assumes "getValue s = Str v" "v \<noteq> []" "maxLength s = Some m" "m \<noteq> 0"
  shows "updateCounterInteractions s
     = validateLengthOnCustomSet (s\<lparr>textAreaCharCount := int (length v)\<rparr>)"
  using assms
  by (simp add: updateCounterInteractions_def whenTruthy_Str truthyN_def Let_def)

text \<open>
  C5.  With a non-empty value \<open>v\<close> and a positive \<^verbatim>\<open>maxLength\<close> \<open>m\<close>, every run of
  \<^verbatim>\<open>updateCounterInteractions\<close> that returns leaves the indicator at \<^verbatim>\<open>excess\<close> and the count at
  \<open>length v - m\<close> when \<open>v\<close> is longer than \<open>m\<close>, and at \<^verbatim>\<open>remaining\<close> and \<open>m - length v\<close>
  otherwise.  It returns in every state but one: an over-long value while a paste is
  pending and the view child is unbound, where selecting the excess text raises.
\<close>

theorem updateCounterInteractions_counter:
  assumes val: "getValue s = Str v" "v \<noteq> []"
    and lim: "maxLength s = Some m" "0 < m"
  shows "(\<forall>s'. updateCounterInteractions s = Inr s' \<longrightarrow>
            (if int (length v) > m
             then counterExcessOrRemaining s' = ''excess''
                  \<and> exceededCharCount s' = Some (int (length v) - m)
             else counterExcessOrRemaining s' = ''remaining''
                  \<and> exceededCharCount s' = Some (m - int (length v))))
       \<and> ((\<exists>s'. updateCounterInteractions s = Inr s')
            = (\<not> (int (length v) > m \<and> isPasted s \<and> textareaElement s = None)))"
proof -
  let ?s1 = "s\<lparr>textAreaCharCount := int (length v)\<rparr>"
  from lim have nz: "m \<noteq> 0" by simp
  have step: "updateCounterInteractions s = validateLengthOnCustomSet ?s1"
    by (rule updateCounterInteractions_unfold [OF val lim(1) nz])
  have m1: "maxLength ?s1 = Some m"
    using lim(1) by simp
  show ?thesis
  proof (cases "int (length v) > m")
    case True
    then have gt: "textAreaCharCount ?s1 > m" by simp
    show ?thesis
      unfolding step validateLengthOnCustomSet_excess [OF m1 gt]
      using True by auto
  next
    case False
    then have le: "\<not> textAreaCharCount ?s1 > m" by simp
    show ?thesis
      unfolding step validateLengthOnCustomSet_remaining [OF m1 le]
      using False by auto
  qed
qed

theorem updateCounterInteractions_counter_witness:
  "(\<exists>s'. updateCounterInteractions
             (newTextArea\<lparr>maxLength := Some 5, stored_value := Str ''hello world''\<rparr>) = Inr s'
        \<and> counterExcessOrRemaining s' = ''excess'' \<and> exceededCharCount s' = Some 6)
   \<and> (\<exists>s'. updateCounterInteractions
             (newTextArea\<lparr>maxLength := Some 5, stored_value := Str ''hey''\<rparr>) = Inr s'
        \<and> counterExcessOrRemaining s' = ''remaining'' \<and> exceededCharCount s' = Some 2)"
proof -
  have a: "\<exists>s'. updateCounterInteractions
             (newTextArea\<lparr>maxLength := Some 5, stored_value := Str ''hello world''\<rparr>) = Inr s'
        \<and> counterExcessOrRemaining s' = ''excess'' \<and> exceededCharCount s' = Some 6"
    using updateCounterInteractions_counter
      [of "newTextArea\<lparr>maxLength := Some 5, stored_value := Str ''hello world''\<rparr>"
          "''hello world''" 5]
    by (auto simp add: getValue_def newTextArea_def)
  have b: "\<exists>s'. updateCounterInteractions
             (newTextArea\<lparr>maxLength := Some 5, stored_value := Str ''hey''\<rparr>) = Inr s'
        \<and> counterExcessOrRemaining s' = ''remaining'' \<and> exceededCharCount s' = Some 2"
    using updateCounterInteractions_counter
      [of "newTextArea\<lparr>maxLength := Some 5, stored_value := Str ''hey''\<rparr>" "''hey''" 5]
    by (auto simp add: getValue_def newTextArea_def)
  from a b show ?thesis by blast
qed

lemma getTextareaTotalHeight_style [simp]:
  "getTextareaTotalHeight (el\<lparr>style_height := h\<rparr>) = getTextareaTotalHeight el"
  by (simp add: getTextareaTotalHeight_def)

lemma autoGrowTextArea_frame:
  "autoGrowTextArea s = Inr s' \<Longrightarrow> \<exists>e. s' = s\<lparr>textareaElement := e\<rparr>"
proof (cases "growing s")
  case False
  assume "autoGrowTextArea s = Inr s'"
  with False have "s' = s\<lparr>textareaElement := textareaElement s\<rparr>"
    by (simp add: autoGrowTextArea_def)
  then show ?thesis ..
next
  case True
  assume r: "autoGrowTextArea s = Inr s'"
  show ?thesis
  proof (cases "textareaElement s")
    case None
    with True r show ?thesis
      by (simp add: autoGrowTextArea_def withElement_None)
  next
    case (Some el)
    with True r show ?thesis
      by (auto simp add: autoGrowTextArea_def withElement_Some)
  qed
qed

lemma autoGrowTextArea_returns:
  "(\<exists>s'. autoGrowTextArea s = Inr s') = (growing s \<longrightarrow> textareaElement s \<noteq> None)"
  by (cases "textareaElement s") (auto simp add: autoGrowTextArea_def withElement_def)

lemma substring_prefix:
  "0 \<le> m \<Longrightarrow> substring v (Some 0) (Some m) = take (nat m) v"
  by (simp add: substring_def Let_def min_def max_def)

text \<open>The first half of the listener: the part before the key is looked at.\<close>

lemma handleBackPress_grow:
  "(if growing s
    then andThen (autoGrowTextArea s) (\<lambda>s1. Inr (s1\<lparr>isValueCustomSet := False\<rparr>))
    else Inr s) = Inr s2 \<Longrightarrow>
   \<exists>e c. s2 = s\<lparr>textareaElement := e, isValueCustomSet := c\<rparr>"
proof (cases "growing s")
  case False
  assume "(if growing s
    then andThen (autoGrowTextArea s) (\<lambda>s1. Inr (s1\<lparr>isValueCustomSet := False\<rparr>))
    else Inr s) = Inr s2"
  with False have "s2 = s\<lparr>textareaElement := textareaElement s,
      isValueCustomSet := isValueCustomSet s\<rparr>"
    by simp
  then show ?thesis by blast
next
  case True
  assume r: "(if growing s
    then andThen (autoGrowTextArea s) (\<lambda>s1. Inr (s1\<lparr>isValueCustomSet := False\<rparr>))
    else Inr s) = Inr s2"
  show ?thesis
  proof (cases "autoGrowTextArea s")
    case (Inl e)
    with True r show ?thesis by simp
  next
    case (Inr s1)
    from autoGrowTextArea_frame [OF Inr] obtain e where "s1 = s\<lparr>textareaElement := e\<rparr>" ..
    with True r Inr have "s2 = s\<lparr>textareaElement := e, isValueCustomSet := False\<rparr>"
      by auto
    then show ?thesis by blast
  qed
qed

lemma handleBackPress_grow_returns:
  "(\<exists>s2. (if growing s
    then andThen (autoGrowTextArea s) (\<lambda>s1. Inr (s1\<lparr>isValueCustomSet := False\<rparr>))
    else Inr s) = Inr s2) = (growing s \<longrightarrow> textareaElement s \<noteq> None)"
proof (cases "growing s")
  case False
  then show ?thesis by simp
next
  case True
  show ?thesis
  proof (cases "autoGrowTextArea s")
    case (Inl e)
    with True autoGrowTextArea_returns [of s] show ?thesis by simp
  next
    case (Inr s1)
    with True autoGrowTextArea_returns [of s] show ?thesis by simp
  qed
qed

text \<open>
  C9.  With \<^verbatim>\<open>showExceededText\<close> off, a positive \<^verbatim>\<open>maxLength\<close> \<open>m\<close> and a value longer than \<open>m\<close>, a
  release of DELETE or BACKSPACE leaves the first \<open>m\<close> characters as the value and
  \<^verbatim>\<open>isValueCustomSet\<close> cleared; the listener returns unless the textarea is growing with its
  view child unbound.  A release of any other key, or any release with \<^verbatim>\<open>showExceededText\<close>
  on, leaves the value as it was.
\<close>

theorem handleBackPress_truncates:
  "(\<not> showExceededText s \<and> maxLength s = Some m \<and> 0 < m \<and> getValue s = Str v
      \<and> int (length v) > m \<and> (keyCode = DELETE \<or> keyCode = BACKSPACE) \<longrightarrow>
      (\<forall>s'. handleBackPress keyCode s = Inr s' \<longrightarrow>
             getValue s' = Str (take (nat m) v)
             \<and> int (length (take (nat m) v)) = m
             \<and> \<not> isValueCustomSet s')
      \<and> ((\<exists>s'. handleBackPress keyCode s = Inr s')
           = (growing s \<longrightarrow> textareaElement s \<noteq> None)))
   \<and> (showExceededText s \<or> (keyCode \<noteq> DELETE \<and> keyCode \<noteq> BACKSPACE) \<longrightarrow>
      (\<forall>s'. handleBackPress keyCode s = Inr s' \<longrightarrow> getValue s' = getValue s))"
proof -
  let ?first = "if growing s
    then andThen (autoGrowTextArea s) (\<lambda>s1. Inr (s1\<lparr>isValueCustomSet := False\<rparr>))
    else Inr s"
  have part1: "(\<forall>s'. handleBackPress keyCode s = Inr s' \<longrightarrow>
             getValue s' = Str (take (nat m) v)
             \<and> int (length (take (nat m) v)) = m
             \<and> \<not> isValueCustomSet s')
      \<and> ((\<exists>s'. handleBackPress keyCode s = Inr s')
           = (growing s \<longrightarrow> textareaElement s \<noteq> None))"
    if h: "\<not> showExceededText s \<and> maxLength s = Some m \<and> 0 < m \<and> getValue s = Str v
      \<and> int (length v) > m \<and> (keyCode = DELETE \<or> keyCode = BACKSPACE)"
  proof -
    from h have vne: "v \<noteq> []" by auto
    from h have tne: "take (nat m) v \<noteq> []" by auto
    have second: "\<And>s2 e c. s2 = s\<lparr>textareaElement := e, isValueCustomSet := c\<rparr> \<Longrightarrow>
      andThen (Inr s2) (\<lambda>s2.
          if \<not> showExceededText s2 \<and> (keyCode = DELETE \<or> keyCode = BACKSPACE)
          then whenTruthy (getValue s2)
                 (\<lambda>v. let s3 = s2\<lparr>textAreaCharCount := int (length v)\<rparr>
                      in if num_gt (Some (textAreaCharCount s3)) (maxLength s3)
                         then Inr ((set_value (Str (substring v (Some 0) (maxLength s3))) s3)
                                     \<lparr>isValueCustomSet := False\<rparr>)
                         else Inr s3)
                 (Inr s2)
          else Inr s2)
      = Inr (s2\<lparr>textAreaCharCount := int (length v), stored_value := Str (take (nat m) v),
               isValueCustomSet := False\<rparr>)"
      using h vne tne
      by (simp add: getValue_def whenTruthy_Str Let_def num_gt_def substring_prefix
          set_value_def truthyS_Str setValue_def)
    show ?thesis
    proof (cases ?first)
      case (Inl e)
      then have "handleBackPress keyCode s = Inl e"
        by (simp add: handleBackPress_def)
      moreover from Inl handleBackPress_grow_returns [of s]
      have "\<not> (growing s \<longrightarrow> textareaElement s \<noteq> None)" by simp
      ultimately show ?thesis by simp
    next
      case (Inr s2)
      from handleBackPress_grow [OF Inr]
      obtain e c where s2: "s2 = s\<lparr>textareaElement := e, isValueCustomSet := c\<rparr>" by blast
      have "handleBackPress keyCode s
          = Inr (s2\<lparr>textAreaCharCount := int (length v), stored_value := Str (take (nat m) v),
                 isValueCustomSet := False\<rparr>)"
        unfolding handleBackPress_def Inr by (rule second [OF s2])
      moreover from Inr handleBackPress_grow_returns [of s]
      have "growing s \<longrightarrow> textareaElement s \<noteq> None" by auto
      ultimately show ?thesis
        using h by (auto simp add: getValue_def)
    qed
  qed
  have part2: "\<forall>s'. handleBackPress keyCode s = Inr s' \<longrightarrow> getValue s' = getValue s"
    if h: "showExceededText s \<or> (keyCode \<noteq> DELETE \<and> keyCode \<noteq> BACKSPACE)"
  proof (cases ?first)
    case (Inl e)
    then have "handleBackPress keyCode s = Inl e"
      by (simp add: handleBackPress_def)
    then show ?thesis by simp
  next
    case (Inr s2)
    from handleBackPress_grow [OF Inr]
    obtain e c where s2: "s2 = s\<lparr>textareaElement := e, isValueCustomSet := c\<rparr>" by blast
    have "handleBackPress keyCode s = Inr s2"
      unfolding handleBackPress_def Inr using h s2 by auto
    with s2 show ?thesis
      by (simp add: getValue_def)
  qed
  from part1 part2 show ?thesis by blast
qed

theorem handleBackPress_truncates_witness:
  "(\<exists>s'. handleBackPress 8
            (newTextArea\<lparr>maxLength := Some 5, stored_value := Str ''hello world'',
                         isValueCustomSet := True\<rparr>) = Inr s'
        \<and> getValue s' = Str ''hello'' \<and> \<not> isValueCustomSet s')
   \<and> (\<exists>s'. handleBackPress 65
            (newTextArea\<lparr>maxLength := Some 5, stored_value := Str ''hello world'',
                         isValueCustomSet := True\<rparr>) = Inr s'
        \<and> getValue s' = Str ''hello world'')"
proof -
  let ?s = "newTextArea\<lparr>maxLength := Some 5, stored_value := Str ''hello world'',
                         isValueCustomSet := True\<rparr>"
  have a: "\<exists>s'. handleBackPress 8 ?s = Inr s'
        \<and> getValue s' = Str ''hello'' \<and> \<not> isValueCustomSet s'"
    using handleBackPress_truncates [of ?s 5 "''hello world''" 8]
    by (auto simp add: newTextArea_def getValue_def BACKSPACE_def)
  have "handleBackPress 65 ?s = Inr ?s"
    by (simp add: handleBackPress_def newTextArea_def DELETE_def BACKSPACE_def)
  then have b: "\<exists>s'. handleBackPress 65 ?s = Inr s' \<and> getValue s' = Str ''hello world''"
    using handleBackPress_truncates [of ?s _ _ 65]
    by (simp add: newTextArea_def getValue_def DELETE_def BACKSPACE_def)
  from a b show ?thesis by blast
qed

lemma digit_char_cases:
  assumes "(d::nat) < 10"
  shows "d \<in> {0, 1, 2, 3, 4, 5, 6, 7, 8, 9}"
  using assms by auto

lemma isDigit_digit_char: "d < 10 \<Longrightarrow> isDigit (digit_char d)"
  using digit_char_cases [of d] by (auto simp add: isDigit_def digit_char_def)

lemma digitValue_digit_char: "d < 10 \<Longrightarrow> digitValue (digit_char d) = int d"
  using digit_char_cases [of d] by (auto simp add: digitValue_def digit_char_def)

lemma isDigit_not_sign: "isDigit c \<Longrightarrow> \<not> isWhiteSpace c \<and> c \<noteq> CHR ''-'' \<and> c \<noteq> CHR ''+''"
  by (auto simp add: isDigit_def isWhiteSpace_def)

lemma dec_digits: "dec n \<noteq> [] \<and> (\<forall>c\<in>set (dec n). isDigit c)"
proof (induction n rule: dec.induct)
  case (1 n)
  show ?case
  proof (cases "n < 10")
    case True
    then show ?thesis
      by (simp add: dec.simps [of n] isDigit_digit_char)
  next
    case False
    with 1 show ?thesis
      by (simp add: dec.simps [of n] isDigit_digit_char)
  qed
qed

lemma digitsValue_snoc: "digitsValue (ds @ [c]) = 10 * digitsValue ds + digitValue c"
  by (simp add: digitsValue_def)

lemma digitsValue_dec: "digitsValue (dec n) = int n"
proof (induction n rule: dec.induct)
  case (1 n)
  show ?case
  proof (cases "n < 10")
    case True
    then show ?thesis
      by (simp add: dec.simps [of n] digitsValue_def digitValue_digit_char)
  next
    case False
    with 1 have "digitsValue (dec (n div 10)) = int (n div 10)" by simp
    with False show ?thesis
      by (simp add: dec.simps [of n] digitsValue_snoc digitValue_digit_char zdiv_int zmod_int)
  qed
qed

lemma parseInt_digits:
  assumes "ds \<noteq> []" "\<forall>c\<in>set ds. isDigit c"
  shows "parseInt (ds @ ''px'') = Some (digitsValue ds)"
proof -
  from assms obtain c cs where ds: "ds = c # cs" and c: "isDigit c"
    by (cases ds) auto
  from c have nc: "\<not> isWhiteSpace c" "c \<noteq> CHR ''-''" "c \<noteq> CHR ''+''"
    using isDigit_not_sign by auto
  have tw: "takeWhile isDigit (ds @ ''px'') = ds"
    using assms(2) by (simp add: takeWhile_append2 isDigit_def)
  have dw: "dropWhile isWhiteSpace (ds @ ''px'') = ds @ ''px''"
    using ds nc by simp
  have t1: "take 1 (ds @ ''px'') = [c]"
    using ds by simp
  show ?thesis
    unfolding parseInt_def dw Let_def t1 using nc tw assms(1) by simp
qed

lemma parseInt_minus_digits:
  assumes "ds \<noteq> []" "\<forall>c\<in>set ds. isDigit c"
  shows "parseInt (CHR ''-'' # ds @ ''px'') = Some (- digitsValue ds)"
proof -
  have tw: "takeWhile isDigit (ds @ ''px'') = ds"
    using assms(2) by (simp add: takeWhile_append2 isDigit_def)
  have dw: "dropWhile isWhiteSpace (CHR ''-'' # ds @ ''px'') = CHR ''-'' # ds @ ''px''"
    by (simp add: isWhiteSpace_def)
  show ?thesis
    unfolding parseInt_def dw Let_def using tw assms(1) by simp
qed

lemma parseInt_number_toString: "parseInt (number_toString (Some n) @ ''px'') = Some n"
proof (cases "n < 0")
  case True
  then show ?thesis
    using parseInt_minus_digits [of "dec (nat (- n))"] dec_digits [of "nat (- n)"]
    by (simp add: number_toString_def digitsValue_dec)
next
  case False
  then show ?thesis
    using parseInt_digits [of "dec (nat n)"] dec_digits [of "nat n"]
    by (simp add: number_toString_def digitsValue_dec)
qed

lemma truthyN_Some: "truthyN x \<Longrightarrow> \<exists>n. x = Some n"
  by (cases x) (simp_all add: truthyN_def)

text \<open>
  What \<^verbatim>\<open>_setMaxHeight\<close> leaves behind on a growing textarea with a \<^verbatim>\<open>height\<close> input: the
  element's max-height is that input.
\<close>

lemma setMaxHeight_height:
  assumes "growing s" "textareaElement s = Some el" "height s = Str h" "h \<noteq> []"
  shows "setMaxHeight s = Inr (s\<lparr>textareaElement := Some (el\<lparr>style_maxHeight := h\<rparr>)\<rparr>)"
  using assms
  by (cases "truthyN (growingMaxLines s)")
    (simp_all add: setMaxHeight_def withElement_def whenTruthy_def)

text \<open>
  C6, as amended.  For a growing textarea with its element bound, \<^verbatim>\<open>autoGrowTextArea\<close> sets
  the height to the total height in pixels when the element's max-height gives no non-zero
  number or the total does not exceed it.  When the total exceeds it, the height becomes
  the \<^verbatim>\<open>height\<close> input if there is one and the max-height in pixels otherwise; it then stays
  within the max-height when there is no \<^verbatim>\<open>height\<close> input or the \<^verbatim>\<open>height\<close> input is what the
  element's max-height holds, which is how \<^verbatim>\<open>_setMaxHeight\<close> leaves it.
\<close>

theorem autoGrowTextArea_height:
  assumes grow: "growing s" and bound: "textareaElement s = Some el"
  shows "\<exists>el'. autoGrowTextArea s = Inr (s\<lparr>textareaElement := Some el'\<rparr>)
     \<and> (\<not> truthyN (parseInt (style_maxHeight el))
          \<or> num_le (getTextareaTotalHeight el) (parseInt (style_maxHeight el))
        \<longrightarrow> style_height el' = number_toString (getTextareaTotalHeight el) @ ''px'')
     \<and> (truthyN (parseInt (style_maxHeight el))
          \<and> \<not> num_le (getTextareaTotalHeight el) (parseInt (style_maxHeight el))
        \<longrightarrow> style_height el'
              = whenTruthy (height s) (\<lambda>h. h)
                  (number_toString (parseInt (style_maxHeight el)) @ ''px''))
     \<and> (truthyN (parseInt (style_maxHeight el))
          \<and> \<not> num_le (getTextareaTotalHeight el) (parseInt (style_maxHeight el))
          \<and> (\<not> truthyS (height s) \<or> height s = Str (style_maxHeight el))
        \<longrightarrow> num_le (parseInt (style_height el')) (parseInt (style_maxHeight el)))"
proof -
  let ?total = "getTextareaTotalHeight el"
  let ?max = "parseInt (style_maxHeight el)"
  let ?h = "if truthyN ?max
            then if num_le ?total ?max then number_toString ?total @ ''px''
                 else whenTruthy (height s) (\<lambda>h. h) (number_toString ?max @ ''px'')
            else number_toString ?total @ ''px''"
  let ?el' = "el\<lparr>style_height := ?h\<rparr>"
  have run: "autoGrowTextArea s = Inr (s\<lparr>textareaElement := Some ?el'\<rparr>)"
    using grow bound
    by (cases "height s") (simp_all add: autoGrowTextArea_def withElement_def Let_def whenTruthy_def)
  have a: "\<not> truthyN ?max \<or> num_le ?total ?max
        \<longrightarrow> style_height ?el' = number_toString ?total @ ''px''"
    by simp
  have b: "truthyN ?max \<and> \<not> num_le ?total ?max
        \<longrightarrow> style_height ?el' = whenTruthy (height s) (\<lambda>h. h) (number_toString ?max @ ''px'')"
    by simp
  have c: "num_le (parseInt (style_height ?el')) ?max"
    if h: "truthyN ?max \<and> \<not> num_le ?total ?max
          \<and> (\<not> truthyS (height s) \<or> height s = Str (style_maxHeight el))"
  proof -
    from h truthyN_Some obtain n where n: "?max = Some n" by blast
    from h have sh: "style_height ?el'
        = whenTruthy (height s) (\<lambda>h. h) (number_toString ?max @ ''px'')"
      by simp
    from h have "\<not> truthyS (height s) \<or> height s = Str (style_maxHeight el)" by simp
    then have "parseInt (style_height ?el') = Some n"
    proof
      assume "\<not> truthyS (height s)"
      then have "whenTruthy (height s) (\<lambda>h. h) (number_toString ?max @ ''px'')
          = number_toString (Some n) @ ''px''"
        by (cases "height s") (auto simp add: truthyS_def whenTruthy_def n)
      with sh show ?thesis
        by (simp only: parseInt_number_toString)
    next
      assume eq: "height s = Str (style_maxHeight el)"
      have "whenTruthy (height s) (\<lambda>h. h) (number_toString ?max @ ''px'')
          = (if style_maxHeight el \<noteq> [] then style_maxHeight el
             else number_toString (Some n) @ ''px'')"
        by (simp add: eq whenTruthy_def n)
      with sh n show ?thesis
        by (simp add: parseInt_number_toString)
    qed
    with n show ?thesis
      by (simp add: num_le_def)
  qed
  from run a b c show ?thesis by blast
qed

theorem autoGrowTextArea_height_witness:
  "(\<exists>el'. autoGrowTextArea
       (newTextArea\<lparr>growing := True, textareaElement :=
          Some (newElement\<lparr>style_maxHeight := ''100px'', scrollHeight := 60\<rparr>)\<rparr>)
      = Inr (newTextArea\<lparr>growing := True, textareaElement := Some el'\<rparr>)
      \<and> style_height el' = ''62px'')
   \<and> (\<exists>el'. autoGrowTextArea
       (newTextArea\<lparr>growing := True, textareaElement :=
          Some (newElement\<lparr>style_maxHeight := ''100px'', scrollHeight := 200\<rparr>)\<rparr>)
      = Inr (newTextArea\<lparr>growing := True, textareaElement := Some el'\<rparr>)
      \<and> style_height el' = ''100px''
      \<and> num_le (parseInt (style_height el')) (Some 100))"
proof -
  have p: "parseInt ''100px'' = Some 100" "parseInt ''1px'' = Some 1"
    by (simp_all add: parseInt_def isWhiteSpace_def isDigit_def digitsValue_def digitValue_def)
  have d: "dec 62 = ''62''" "dec 100 = ''100''"
    by (simp_all add: dec.simps digit_char_def)
  have a: "\<exists>el'. autoGrowTextArea
       (newTextArea\<lparr>growing := True, textareaElement :=
          Some (newElement\<lparr>style_maxHeight := ''100px'', scrollHeight := 60\<rparr>)\<rparr>)
      = Inr (newTextArea\<lparr>growing := True, textareaElement := Some el'\<rparr>)
      \<and> style_height el' = ''62px''"
    using autoGrowTextArea_height
      [of "newTextArea\<lparr>growing := True, textareaElement :=
          Some (newElement\<lparr>style_maxHeight := ''100px'', scrollHeight := 60\<rparr>)\<rparr>"
        "newElement\<lparr>style_maxHeight := ''100px'', scrollHeight := 60\<rparr>"]
    by (auto simp add: newTextArea_def newElement_def getTextareaTotalHeight_def p d
        num_add_def num_le_def truthyN_def number_toString_def)
  have b: "\<exists>el'. autoGrowTextArea
       (newTextArea\<lparr>growing := True, textareaElement :=
          Some (newElement\<lparr>style_maxHeight := ''100px'', scrollHeight := 200\<rparr>)\<rparr>)
      = Inr (newTextArea\<lparr>growing := True, textareaElement := Some el'\<rparr>)
      \<and> style_height el' = ''100px''
      \<and> num_le (parseInt (style_height el')) (Some 100)"
    using autoGrowTextArea_height
      [of "newTextArea\<lparr>growing := True, textareaElement :=
          Some (newElement\<lparr>style_maxHeight := ''100px'', scrollHeight := 200\<rparr>)\<rparr>"
        "newElement\<lparr>style_maxHeight := ''100px'', scrollHeight := 200\<rparr>"]
    by (auto simp add: newTextArea_def newElement_def getTextareaTotalHeight_def p d
        num_add_def num_le_def truthyN_def number_toString_def truthyS_def whenTruthy_def)
  from a b show ?thesis by blast
qed

text \<open>
  C6 as stated fails when the \<^verbatim>\<open>height\<close> input and the element's max-height differ: with a
  max-height of 100 pixels, a total of 202 and a \<^verbatim>\<open>height\<close> input of 500 pixels, the height
  applied is 500 pixels.
\<close>

theorem autoGrowTextArea_height_counterexample:
  "autoGrowTextArea
     (newTextArea\<lparr>growing := True, height := Str ''500px'', textareaElement :=
        Some (newElement\<lparr>style_maxHeight := ''100px'', scrollHeight := 200\<rparr>)\<rparr>)
   = Inr (newTextArea\<lparr>growing := True, height := Str ''500px'', textareaElement :=
        Some (newElement\<lparr>style_maxHeight := ''100px'', scrollHeight := 200,
                         style_height := ''500px''\<rparr>)\<rparr>)
   \<and> getTextareaTotalHeight (newElement\<lparr>style_maxHeight := ''100px'', scrollHeight := 200\<rparr>)
       = Some 202
   \<and> parseInt ''100px'' = Some 100
   \<and> parseInt ''500px'' = Some 500
   \<and> \<not> num_le (parseInt ''500px'') (parseInt ''100px'')"
proof -
  have p: "parseInt ''100px'' = Some 100" "parseInt ''1px'' = Some 1"
    "parseInt ''500px'' = Some 500"
    by (simp_all add: parseInt_def isWhiteSpace_def isDigit_def digitsValue_def digitValue_def)
  have t: "getTextareaTotalHeight (newElement\<lparr>style_maxHeight := ''100px'', scrollHeight := 200\<rparr>)
       = Some 202"
    by (simp add: getTextareaTotalHeight_def newElement_def p num_add_def)
  have r: "autoGrowTextArea
     (newTextArea\<lparr>growing := True, height := Str ''500px'', textareaElement :=
        Some (newElement\<lparr>style_maxHeight := ''100px'', scrollHeight := 200\<rparr>)\<rparr>)
   = Inr (newTextArea\<lparr>growing := True, height := Str ''500px'', textareaElement :=
        Some (newElement\<lparr>style_maxHeight := ''100px'', scrollHeight := 200,
                         style_height := ''500px''\<rparr>)\<rparr>)"
    by (simp add: autoGrowTextArea_def withElement_def Let_def t newTextArea_def
        whenTruthy_def truthyN_def num_le_def)
      (simp add: newElement_def p truthyN_def num_le_def)
  from r t p show ?thesis
    by (simp add: num_le_def)
qed

end
